theory Spec2Isabelle
  imports Complex_Main "HOL-Library.Sublist"
begin

section \<open>Numbers of the scoring engine\<close>

text \<open>
  The source computes with Python values of type \<open>int | float\<close>. A value keeps its
  Python type, because the report formatter branches on it (\<open>isinstance(_, float)\<close>).
  An \<open>int\<close> is an unbounded integer. A \<open>float\<close> is modelled by the exact rational it
  denotes: rounding of the binary representation, overflow and the infinities are not
  modelled, and \<open>nan\<close> appears only as the result of \<open>_calc_percentage\<close>.
\<close>

datatype number = PyInt int | PyFloat rat

fun val :: "number \<Rightarrow> rat" where
  "val (PyInt i) = of_int i"
| "val (PyFloat q) = q"


text \<open>\<open>a * b\<close> and \<open>a + b\<close>: the result is an \<open>int\<close> only when both operands are.\<close>

fun py_mul :: "number \<Rightarrow> number \<Rightarrow> number" where
  "py_mul (PyInt a) (PyInt b) = PyInt (a * b)"
| "py_mul a b = PyFloat (val a * val b)"

fun py_add :: "number \<Rightarrow> number \<Rightarrow> number" where
  "py_add (PyInt a) (PyInt b) = PyInt (a + b)"
| "py_add a b = PyFloat (val a + val b)"

section \<open>Patterns\<close>

text \<open>
  \<open>description_regex\<close> is a compiled \<open>re.Pattern\<close>. The model has the regular core of the
  pattern language: a literal character, \<open>.\<close> (any character but a newline), a character
  set, the empty pattern, concatenation, \<open>|\<close> and \<open>*\<close>.
\<close>

datatype regex =
    Lit char
  | Dot
  | OneOf "char list"
  | Eps
  | Seq regex regex
  | Alt regex regex
  | Star regex

fun nullable :: "regex \<Rightarrow> bool" where
  "nullable (Lit c) = False"
| "nullable Dot = False"
| "nullable (OneOf cs) = False"
| "nullable Eps = True"
| "nullable (Seq r s) = (nullable r \<and> nullable s)"
| "nullable (Alt r s) = (nullable r \<or> nullable s)"
| "nullable (Star r) = True"

text \<open>\<open>deriv c r = None\<close>: no word of \<open>r\<close> starts with \<open>c\<close>; otherwise the pattern of what may
  follow \<open>c\<close>.\<close>

fun deriv :: "char \<Rightarrow> regex \<Rightarrow> regex option" where
  "deriv c (Lit d) = (if c = d then Some Eps else None)"
| "deriv c Dot = (if c = CHR 0x0A then None else Some Eps)"
| "deriv c (OneOf cs) = (if c \<in> set cs then Some Eps else None)"
| "deriv c Eps = None"
| "deriv c (Seq r s) =
     (case deriv c r of
        Some r' \<Rightarrow>
          (if nullable r
           then (case deriv c s of Some s' \<Rightarrow> Some (Alt (Seq r' s) s') | None \<Rightarrow> Some (Seq r' s))
           else Some (Seq r' s))
      | None \<Rightarrow> (if nullable r then deriv c s else None))"
| "deriv c (Alt r s) =
     (case (deriv c r, deriv c s) of
        (Some r', Some s') \<Rightarrow> Some (Alt r' s')
      | (Some r', None) \<Rightarrow> Some r'
      | (None, d) \<Rightarrow> d)"
| "deriv c (Star r) = (case deriv c r of Some r' \<Rightarrow> Some (Seq r' (Star r)) | None \<Rightarrow> None)"

text \<open>\<open>pattern.match(s) is not None\<close>: the pattern is tried at position 0 only, and the match
  may end anywhere.\<close>

fun re_match :: "regex \<Rightarrow> string \<Rightarrow> bool" where
  "re_match r [] = nullable r"
| "re_match r (c # cs) =
     (nullable r \<or> (case deriv c r of Some r' \<Rightarrow> re_match r' cs | None \<Rightarrow> False))"

text \<open>The words of a pattern, for stating what a match is.\<close>

inductive_set star :: "string set \<Rightarrow> string set" for A :: "string set" where
  star_nil: "[] \<in> star A"
| star_app: "u \<in> A \<Longrightarrow> v \<in> star A \<Longrightarrow> u @ v \<in> star A"

fun lang :: "regex \<Rightarrow> string set" where
  "lang (Lit c) = {[c]}"
| "lang Dot = {[c] | c. c \<noteq> CHR 0x0A}"
| "lang (OneOf cs) = {[c] | c. c \<in> set cs}"
| "lang Eps = {[]}"
| "lang (Seq r s) = {u @ v | u v. u \<in> lang r \<and> v \<in> lang s}"
| "lang (Alt r s) = lang r \<union> lang s"
| "lang (Star r) = star (lang r)"

text \<open>The words of a derivative, none when there is no derivative.\<close>

fun lang_opt :: "regex option \<Rightarrow> string set" where
  "lang_opt None = {}"
| "lang_opt (Some r) = lang r"

text \<open>A literal pattern such as \<open>ping\<close>.\<close>

fun literal :: "string \<Rightarrow> regex" where
  "literal [] = Eps"
| "literal (c # cs) = Seq (Lit c) (literal cs)"

section \<open>Records, strategies and rules (models.py)\<close>

record LabResultRecord =
  description :: string
  passed :: bool
  reason :: string

text \<open>The strategy \<open>ALL\<close> is written \<open>ALL'\<close>: \<open>ALL\<close> is a quantifier of HOL's syntax.\<close>

datatype GroupType = EACH | LINEAR | LINEAR_ROUNDED | LINEAR_FLOORED | ALL' | ANY

text \<open>
  A \<open>CheckGroup\<close> refers back to its category; the code reads the category's name (for the
  hash) and its multiplier through that reference, and these two are the fields
  \<open>category_name\<close> and \<open>category_points_multiplier\<close> here.
\<close>

record CheckGroup =
  group_name :: string
  group_type :: GroupType
  description_regex :: regex
  points :: number
  category_name :: string
  category_points_multiplier :: number

text \<open>
  Exceptions are values. A \<open>ValueError\<close> whose message is a constant string carries that
  string; the three raised by \<open>score\<close> interpolate a record or a group into the message, and
  carry what is interpolated.
\<close>

datatype error =
    ZeroDivisionError
  | KeyError
  | ValueError string
  | ValueError_multiple_groups LabResultRecord "CheckGroup list"
  | ValueError_without_group LabResultRecord
  | ValueError_without_records CheckGroup

text \<open>\<open>a / b\<close> on two \<open>int\<close>s is true division: always a \<open>float\<close>, and it raises on \<open>b = 0\<close>.\<close>

definition py_truediv :: "int \<Rightarrow> int \<Rightarrow> error + number" where
  "py_truediv a b = (if b = 0 then Inl ZeroDivisionError else Inr (PyFloat (of_int a / of_int b)))"

text \<open>The builtin \<open>round(x)\<close> of one argument: to the nearest integer, a tie going to the even
  neighbour; the result is an \<open>int\<close>.\<close>

definition round_half_even :: "rat \<Rightarrow> int" where
  "round_half_even x =
     (let f = \<lfloor>x\<rfloor>; d = x - of_int f
      in if d < 1 / 2 then f
         else if 1 / 2 < d then f + 1
         else if even f then f else f + 1)"

fun py_round :: "number \<Rightarrow> number" where
  "py_round (PyInt i) = PyInt i"
| "py_round (PyFloat q) = PyInt (round_half_even q)"

fun math_floor :: "number \<Rightarrow> number" where
  "math_floor (PyInt i) = PyInt i"
| "math_floor (PyFloat q) = PyInt \<lfloor>q\<rfloor>"

text \<open>\<open>sum(xs)\<close>: a left fold of \<open>+\<close> from the \<open>int\<close> 0. The summands are properties that may
  raise; the first one that does ends the sum.\<close>

fun sum_from :: "number \<Rightarrow> (error + number) list \<Rightarrow> error + number" where
  "sum_from acc [] = Inr acc"
| "sum_from acc (Inl e # xs) = Inl e"
| "sum_from acc (Inr x # xs) = sum_from (py_add acc x) xs"

definition py_sum :: "(error + number) list \<Rightarrow> error + number" where
  "py_sum xs = sum_from (PyInt 0) xs"



section \<open>Scoring formulas and configuration (models.py)\<close>

text \<open>\<open>count_passed = sum(1 for rec in records if rec.passed)\<close>\<close>

definition count_passed :: "LabResultRecord list \<Rightarrow> int" where
  "count_passed records = int (length (filter passed records))"

definition len :: "'a list \<Rightarrow> int" where
  "len xs = int (length xs)"

fun calculate_earned_points :: "GroupType \<Rightarrow> number \<Rightarrow> LabResultRecord list \<Rightarrow> error + number" where
  "calculate_earned_points EACH group_points records =
     Inr (py_mul group_points (PyInt (count_passed records)))"
| "calculate_earned_points LINEAR group_points records =
     (case py_truediv (count_passed records) (len records) of
        Inl e \<Rightarrow> Inl e
      | Inr ratio \<Rightarrow> Inr (py_mul ratio group_points))"
| "calculate_earned_points LINEAR_ROUNDED group_points records =
     (case py_truediv (count_passed records) (len records) of
        Inl e \<Rightarrow> Inl e
      | Inr ratio \<Rightarrow> Inr (py_round (py_mul ratio group_points)))"
| "calculate_earned_points LINEAR_FLOORED group_points records =
     (case py_truediv (count_passed records) (len records) of
        Inl e \<Rightarrow> Inl e
      | Inr ratio \<Rightarrow> Inr (math_floor (py_mul ratio group_points)))"
| "calculate_earned_points ALL' group_points records =
     Inr (if count_passed records = len records then group_points else PyInt 0)"
| "calculate_earned_points ANY group_points records =
     Inr (if count_passed records \<ge> 1 then group_points else PyInt 0)"

fun calculate_max_points :: "GroupType \<Rightarrow> number \<Rightarrow> LabResultRecord list \<Rightarrow> number" where
  "calculate_max_points EACH group_points records = py_mul group_points (PyInt (len records))"
| "calculate_max_points LINEAR group_points records = group_points"
| "calculate_max_points LINEAR_ROUNDED group_points records = group_points"
| "calculate_max_points LINEAR_FLOORED group_points records = group_points"
| "calculate_max_points ALL' group_points records = group_points"
| "calculate_max_points ANY group_points records = group_points"

definition matches :: "CheckGroup \<Rightarrow> LabResultRecord \<Rightarrow> bool" where
  "matches g record = re_match (description_regex g) (description record)"

record GroupCategory =
  name :: string
  points_multiplier :: number
  groups :: "CheckGroup list"

record ScoringConfig =
  categories :: "GroupCategory list"

definition config_groups :: "ScoringConfig \<Rightarrow> CheckGroup list" where
  "config_groups config = concat (map groups (categories config))"

text \<open>
  \<open>ScoringConfig(categories)\<close>: the dataclass constructor followed by \<open>__post_init__\<close>.
  \<open>len({x.name for x in xs}) != len(xs)\<close> compares the number of distinct names with the
  number of elements.
\<close>

definition has_duplicates :: "'a list \<Rightarrow> bool" where
  "has_duplicates xs = (length (remdups xs) \<noteq> length xs)"

definition new_ScoringConfig :: "GroupCategory list \<Rightarrow> error + ScoringConfig" where
  "new_ScoringConfig cats =
     (if has_duplicates (map name cats)
      then Inl (ValueError ''Group category names must be unique'')
      else if list_ex (\<lambda>category. has_duplicates (map group_name (groups category))) cats
      then Inl (ValueError ''Check group names within categories must be unique'')
      else if list_ex (\<lambda>category. length (groups category) = 0) cats
      then Inl (ValueError ''Each category must contain at least one check group'')
      else Inr \<lparr>categories = cats\<rparr>)"

subsection \<open>Results\<close>

record GroupResult =
  gr_group :: CheckGroup
  gr_records :: "LabResultRecord list"

definition group_weight :: "CheckGroup \<Rightarrow> number" where
  "group_weight g = py_mul (points g) (category_points_multiplier g)"

definition gr_total_checks_count :: "GroupResult \<Rightarrow> int" where
  "gr_total_checks_count r = len (gr_records r)"

definition gr_passed_checks_count :: "GroupResult \<Rightarrow> int" where
  "gr_passed_checks_count r = count_passed (gr_records r)"

definition gr_failed_check_count :: "GroupResult \<Rightarrow> int" where
  "gr_failed_check_count r = gr_total_checks_count r - gr_passed_checks_count r"

definition gr_max_points :: "GroupResult \<Rightarrow> number" where
  "gr_max_points r =
     calculate_max_points (group_type (gr_group r)) (group_weight (gr_group r)) (gr_records r)"

definition gr_earned_points :: "GroupResult \<Rightarrow> error + number" where
  "gr_earned_points r =
     calculate_earned_points (group_type (gr_group r)) (group_weight (gr_group r)) (gr_records r)"


record CategoryResult =
  cr_category :: GroupCategory
  cr_groups :: "GroupResult list"

definition cr_total_checks_count :: "CategoryResult \<Rightarrow> int" where
  "cr_total_checks_count c = sum_list (map gr_total_checks_count (cr_groups c))"

definition cr_passed_checks_count :: "CategoryResult \<Rightarrow> int" where
  "cr_passed_checks_count c = sum_list (map gr_passed_checks_count (cr_groups c))"

definition cr_failed_check_count :: "CategoryResult \<Rightarrow> int" where
  "cr_failed_check_count c = sum_list (map gr_failed_check_count (cr_groups c))"

definition cr_max_points :: "CategoryResult \<Rightarrow> error + number" where
  "cr_max_points c = py_sum (map (\<lambda>g. Inr (gr_max_points g)) (cr_groups c))"

definition cr_earned_points :: "CategoryResult \<Rightarrow> error + number" where
  "cr_earned_points c = py_sum (map gr_earned_points (cr_groups c))"



record ScoringResult =
  sr_categories :: "CategoryResult list"

definition sr_total_checks_count :: "ScoringResult \<Rightarrow> int" where
  "sr_total_checks_count s = sum_list (map cr_total_checks_count (sr_categories s))"

definition sr_passed_checks_count :: "ScoringResult \<Rightarrow> int" where
  "sr_passed_checks_count s = sum_list (map cr_passed_checks_count (sr_categories s))"

definition sr_failed_check_count :: "ScoringResult \<Rightarrow> int" where
  "sr_failed_check_count s = sum_list (map cr_failed_check_count (sr_categories s))"

definition sr_max_points :: "ScoringResult \<Rightarrow> error + number" where
  "sr_max_points s = py_sum (map cr_max_points (sr_categories s))"

definition sr_earned_points :: "ScoringResult \<Rightarrow> error + number" where
  "sr_earned_points s = py_sum (map cr_earned_points (sr_categories s))"


section \<open>Matching and the entry point (scoring.py)\<close>

text \<open>
  A Python \<open>dict\<close> keeps its keys in insertion order and compares them with \<open>==\<close>, which for
  the two frozen dataclasses used as keys is equality of all fields. It is an association
  list with one entry per key.
\<close>

type_synonym ('k, 'v) dict = "('k \<times> 'v) list"

text \<open>\<open>d[k] = v\<close>: an existing key keeps its place.\<close>

fun dict_store :: "('k, 'v) dict \<Rightarrow> 'k \<Rightarrow> 'v \<Rightarrow> ('k, 'v) dict" where
  "dict_store [] k v = [(k, v)]"
| "dict_store ((k', v') # d) k v =
     (if k' = k then (k', v) # d else (k', v') # dict_store d k v)"

text \<open>\<open>d[k]\<close>\<close>

definition dict_get :: "('k, 'v) dict \<Rightarrow> 'k \<Rightarrow> error + 'v" where
  "dict_get d k = (case map_of d k of None \<Rightarrow> Inl KeyError | Some v \<Rightarrow> Inr v)"

text \<open>\<open>{k: [] for k in keys}\<close>\<close>

fun empty_lists :: "'k list \<Rightarrow> ('k, 'v list) dict \<Rightarrow> ('k, 'v list) dict" where
  "empty_lists [] d = d"
| "empty_lists (k # ks) d = empty_lists ks (dict_store d k [])"

text \<open>\<open>d[k].append(x)\<close>\<close>

definition dict_append :: "('k, 'v list) dict \<Rightarrow> 'k \<Rightarrow> 'v \<Rightarrow> error + ('k, 'v list) dict" where
  "dict_append d k x =
     (case dict_get d k of Inl e \<Rightarrow> Inl e | Inr xs \<Rightarrow> Inr (dict_store d k (xs @ [x])))"

record RecordGroupMatching =
  record_to_groups :: "(LabResultRecord, CheckGroup list) dict"
  group_to_records :: "(CheckGroup, LabResultRecord list) dict"

definition records_matching_multiple_groups :: "RecordGroupMatching \<Rightarrow> LabResultRecord list" where
  "records_matching_multiple_groups m =
     map fst (filter (\<lambda>(record, groups). length groups > 1) (record_to_groups m))"

definition records_without_group :: "RecordGroupMatching \<Rightarrow> LabResultRecord list" where
  "records_without_group m =
     map fst (filter (\<lambda>(record, groups). length groups = 0) (record_to_groups m))"

definition groups_without_records :: "RecordGroupMatching \<Rightarrow> CheckGroup list" where
  "groups_without_records m =
     map fst (filter (\<lambda>(group, records). length records = 0) (group_to_records m))"

text \<open>The inner loop of \<open>create\<close>: \<open>for record in records\<close>, for one group.\<close>

fun create_inner ::
  "CheckGroup \<Rightarrow> LabResultRecord list \<Rightarrow> RecordGroupMatching \<Rightarrow> error + RecordGroupMatching" where
  "create_inner g [] m = Inr m"
| "create_inner g (record # records) m =
     (if matches g record
      then (case dict_append (record_to_groups m) record g of
              Inl e \<Rightarrow> Inl e
            | Inr rtg \<Rightarrow>
                (case dict_append (group_to_records m) g record of
                   Inl e \<Rightarrow> Inl e
                 | Inr gtr \<Rightarrow>
                     create_inner g records \<lparr>record_to_groups = rtg, group_to_records = gtr\<rparr>))
      else create_inner g records m)"

text \<open>The outer loop: \<open>for group in config.groups\<close>.\<close>

fun create_outer ::
  "CheckGroup list \<Rightarrow> LabResultRecord list \<Rightarrow> RecordGroupMatching \<Rightarrow> error + RecordGroupMatching" where
  "create_outer [] records m = Inr m"
| "create_outer (g # gs) records m =
     (case create_inner g records m of
        Inl e \<Rightarrow> Inl e
      | Inr m' \<Rightarrow> create_outer gs records m')"

definition create :: "ScoringConfig \<Rightarrow> LabResultRecord list \<Rightarrow> error + RecordGroupMatching" where
  "create config records =
     create_outer (config_groups config) records
       \<lparr>record_to_groups = empty_lists records [],
        group_to_records = empty_lists (config_groups config) []\<rparr>"

text \<open>
  The module logger is the one thing \<open>score\<close> writes to. A call \<open>_logger.error(msg)\<close> appends a
  line to the log, which \<open>score\<close> takes and returns. A line is its constant text, or the
  values that are joined into it.
\<close>

datatype log_line =
    Log_text string
  | Log_records_with_groups "(LabResultRecord \<times> CheckGroup list) list"
  | Log_records "LabResultRecord list"
  | Log_groups "CheckGroup list"

text \<open>\<open>f"[{record} -> {matching.record_to_groups[record]}]" for record in multiple_groups\<close>\<close>

fun with_groups ::
  "(LabResultRecord, CheckGroup list) dict \<Rightarrow> LabResultRecord list
     \<Rightarrow> error + (LabResultRecord \<times> CheckGroup list) list" where
  "with_groups d [] = Inr []"
| "with_groups d (record # records) =
     (case dict_get d record of
        Inl e \<Rightarrow> Inl e
      | Inr gs \<Rightarrow>
          (case with_groups d records of
             Inl e \<Rightarrow> Inl e
           | Inr rest \<Rightarrow> Inr ((record, gs) # rest)))"

text \<open>\<open>[create_group_result(group) for group in category.groups]\<close>\<close>

fun create_group_results :: "RecordGroupMatching \<Rightarrow> CheckGroup list \<Rightarrow> error + GroupResult list" where
  "create_group_results m [] = Inr []"
| "create_group_results m (g # gs) =
     (case dict_get (group_to_records m) g of
        Inl e \<Rightarrow> Inl e
      | Inr records \<Rightarrow>
          (case create_group_results m gs of
             Inl e \<Rightarrow> Inl e
           | Inr rest \<Rightarrow> Inr (\<lparr>gr_group = g, gr_records = records\<rparr> # rest)))"

text \<open>\<open>[create_category_result(cat) for cat in config.categories]\<close>\<close>

fun create_category_results ::
  "RecordGroupMatching \<Rightarrow> GroupCategory list \<Rightarrow> error + CategoryResult list" where
  "create_category_results m [] = Inr []"
| "create_category_results m (cat # cats) =
     (case create_group_results m (groups cat) of
        Inl e \<Rightarrow> Inl e
      | Inr grs \<Rightarrow>
          (case create_category_results m cats of
             Inl e \<Rightarrow> Inl e
           | Inr rest \<Rightarrow> Inr (\<lparr>cr_category = cat, cr_groups = grs\<rparr> # rest)))"

definition score ::
  "ScoringConfig \<Rightarrow> LabResultRecord list \<Rightarrow> log_line list
     \<Rightarrow> (error + ScoringResult) \<times> log_line list" where
  "score config records logged =
     (case create config records of
        Inl e \<Rightarrow> (Inl e, logged)
      | Inr matching \<Rightarrow>
          (case records_matching_multiple_groups matching of
             record # others \<Rightarrow>
               (let log1 = logged @ [Log_text ''The following CSV records match multiple checks groups:'']
                in case with_groups (record_to_groups matching) (record # others) of
                     Inl e \<Rightarrow> (Inl e, log1)
                   | Inr pairs \<Rightarrow>
                       (let log2 = log1 @ [Log_records_with_groups pairs]
                        in case dict_get (record_to_groups matching) record of
                             Inl e \<Rightarrow> (Inl e, log2)
                           | Inr gs \<Rightarrow> (Inl (ValueError_multiple_groups record gs), log2)))
           | [] \<Rightarrow>
               (case records_without_group matching of
                  record # others \<Rightarrow>
                    (Inl (ValueError_without_group record),
                     logged @ [Log_text ''The following CSV records don't match any check groups:'',
                            Log_records (record # others)])
                | [] \<Rightarrow>
                    (case groups_without_records matching of
                       g # others \<Rightarrow>
                         (Inl (ValueError_without_records g),
                          logged @ [Log_text ''The following check groups don't match any CSV records:'',
                                 Log_groups (g # others)])
                     | [] \<Rightarrow>
                         (case create_category_results matching (categories config) of
                            Inl e \<Rightarrow> (Inl e, logged)
                          | Inr crs \<Rightarrow> (Inr \<lparr>sr_categories = crs\<rparr>, logged))))))"

section \<open>The report (scoring.py)\<close>














section \<open>Notions of the specification\<close>





section \<open>Closed forms of the matcher\<close>

text \<open>What one pass of the inner loop adds under a record's key, and under the group's key.\<close>

definition added_groups :: "CheckGroup \<Rightarrow> LabResultRecord list \<Rightarrow> LabResultRecord \<Rightarrow> CheckGroup list" where
  "added_groups g records r = map (\<lambda>_. g) (filter (\<lambda>r'. r' = r \<and> matches g r') records)"

text \<open>What the whole of \<open>create\<close> holds under a record's key and under a rule's key.\<close>

definition groups_of :: "CheckGroup list \<Rightarrow> LabResultRecord list \<Rightarrow> LabResultRecord \<Rightarrow> CheckGroup list" where
  "groups_of gs records r = concat (map (\<lambda>g. added_groups g records r) gs)"

definition records_of :: "CheckGroup list \<Rightarrow> LabResultRecord list \<Rightarrow> CheckGroup \<Rightarrow> LabResultRecord list" where
  "records_of gs records g' = concat (map (\<lambda>g. if g = g' then filter (matches g) records else []) gs)"

text \<open>The overall result that \<open>score\<close> builds from a matching it accepts.\<close>

definition expected_result :: "ScoringConfig \<Rightarrow> LabResultRecord list \<Rightarrow> ScoringResult" where
  "expected_result config records =
     \<lparr>sr_categories =
        map (\<lambda>cat. \<lparr>cr_category = cat,
                     cr_groups = map (\<lambda>g. \<lparr>gr_group = g,
                                             gr_records = records_of (config_groups config) records g\<rparr>)
                                   (groups cat)\<rparr>)
            (categories config)\<rparr>"

section \<open>Example data\<close>

text \<open>Records, rules and configurations used to run the definitions on concrete inputs.\<close>

definition ping_ok :: LabResultRecord where
  "ping_ok = \<lparr>description = ''ping from A to B'', passed = True, reason = []\<rparr>"

definition dns_failed :: LabResultRecord where
  "dns_failed = \<lparr>description = ''dns lookup of example.org'', passed = False, reason = ''timeout''\<rparr>"

definition ping_rule :: CheckGroup where
  "ping_rule = \<lparr>group_name = ''ping'', group_type = EACH, description_regex = literal ''ping'',
                 points = PyInt 5, category_name = ''net'', category_points_multiplier = PyInt 1\<rparr>"

definition dns_rule :: CheckGroup where
  "dns_rule = \<lparr>group_name = ''dns'', group_type = LINEAR, description_regex = literal ''dns'',
                points = PyInt 10, category_name = ''net'', category_points_multiplier = PyInt 1\<rparr>"

definition net_config :: ScoringConfig where
  "net_config =
     \<lparr>categories = [\<lparr>name = ''net'', points_multiplier = PyInt 1, groups = [ping_rule, dns_rule]\<rparr>]\<rparr>"

definition ping_failed :: LabResultRecord where
  "ping_failed = \<lparr>description = ''ping from A to C'', passed = False, reason = ''unreachable''\<rparr>"

definition dns_ok :: LabResultRecord where
  "dns_ok = \<lparr>description = ''dns lookup of example.net'', passed = True, reason = []\<rparr>"





definition ping_result :: GroupResult where
  "ping_result = \<lparr>gr_group = ping_rule, gr_records = [ping_ok, ping_failed]\<rparr>"

definition dns_result :: GroupResult where
  "dns_result = \<lparr>gr_group = dns_rule, gr_records = [dns_failed, dns_ok]\<rparr>"

definition net_result :: ScoringResult where
  "net_result =
     \<lparr>sr_categories =
        [\<lparr>cr_category = \<lparr>name = ''net'', points_multiplier = PyInt 1, groups = [ping_rule, dns_rule]\<rparr>,
          cr_groups = [ping_result, dns_result]\<rparr>]\<rparr>"




section \<open>The scoring formulas\<close>


lemma val_py_add: "val (py_add a b) = val a + val b"
  by (cases a; cases b) simp_all



















section \<open>Percentages and sums\<close>



lemma sum_from_values:
  "\<exists>r. sum_from acc (map Inr vs) = Inr r \<and> val r = val acc + sum_list (map val vs)"
proof (induction vs arbitrary: acc)
  case Nil
  show ?case by simp
next
  case (Cons v vs)
  from Cons [of "py_add acc v"] show ?case by (auto simp: val_py_add)
qed

lemma py_sum_values:
  "xs = map Inr vs \<Longrightarrow> \<exists>r. py_sum xs = Inr r \<and> val r = sum_list (map val vs)"
  using sum_from_values [of "PyInt 0" vs] by (simp add: py_sum_def)

lemma sum_from_error:
  "sum_from acc (map Inr vs @ Inl e # xs) = Inl e"
  by (induction vs arbitrary: acc) simp_all

lemma cr_max_points_value:
  "\<exists>m. cr_max_points c = Inr m \<and> val m = sum_list (map (\<lambda>g. val (gr_max_points g)) (cr_groups c))"
proof -
  have "map (\<lambda>g. Inr (gr_max_points g)) (cr_groups c) = map Inr (map gr_max_points (cr_groups c))"
    by simp
  from py_sum_values [OF this] show ?thesis by (simp add: cr_max_points_def comp_def)
qed

text \<open>
  Claim C5. The counts of a category result are the sums of the counts of its rule results,
  and when the rule results' earned points are \<open>es\<close> its earned points are their sum; its
  maximum is the sum of their maxima. The overall result is the same sums over its category
  results. The lists are arbitrary: the tree may have any shape.
\<close>

theorem aggregation_sums:
  assumes "map gr_earned_points (cr_groups c) = map Inr es"
      and "map cr_earned_points (sr_categories s) = map Inr ces"
  shows "cr_total_checks_count c = sum_list (map gr_total_checks_count (cr_groups c)) \<and>
         cr_passed_checks_count c = sum_list (map gr_passed_checks_count (cr_groups c)) \<and>
         cr_failed_check_count c = sum_list (map gr_failed_check_count (cr_groups c)) \<and>
         (\<exists>v. cr_earned_points c = Inr v \<and> val v = sum_list (map val es)) \<and>
         (\<exists>m. cr_max_points c = Inr m \<and>
              val m = sum_list (map (\<lambda>g. val (gr_max_points g)) (cr_groups c))) \<and>
         sr_total_checks_count s = sum_list (map cr_total_checks_count (sr_categories s)) \<and>
         sr_passed_checks_count s = sum_list (map cr_passed_checks_count (sr_categories s)) \<and>
         sr_failed_check_count s = sum_list (map cr_failed_check_count (sr_categories s)) \<and>
         (\<exists>v. sr_earned_points s = Inr v \<and> val v = sum_list (map val ces)) \<and>
         (\<exists>m cms. map cr_max_points (sr_categories s) = map Inr cms \<and>
              sr_max_points s = Inr m \<and> val m = sum_list (map val cms))"
proof -
  have ce: "\<exists>v. cr_earned_points c = Inr v \<and> val v = sum_list (map val es)"
    unfolding cr_earned_points_def by (rule py_sum_values [OF assms(1)])
  have se: "\<exists>v. sr_earned_points s = Inr v \<and> val v = sum_list (map val ces)"
    unfolding sr_earned_points_def by (rule py_sum_values [OF assms(2)])
  have "\<forall>c. \<exists>m. cr_max_points c = Inr m" using cr_max_points_value by blast
  then obtain f where f: "\<And>c. cr_max_points c = Inr (f c)" by metis
  then have cms: "map cr_max_points (sr_categories s) = map Inr (map f (sr_categories s))"
    by simp
  from py_sum_values [OF this]
  have sm: "\<exists>m cms. map cr_max_points (sr_categories s) = map Inr cms \<and>
              sr_max_points s = Inr m \<and> val m = sum_list (map val cms)"
    unfolding sr_max_points_def using cms by blast
  show ?thesis
    using ce se sm cr_max_points_value [of c]
    by (simp add: cr_total_checks_count_def cr_passed_checks_count_def cr_failed_check_count_def
        sr_total_checks_count_def sr_passed_checks_count_def sr_failed_check_count_def)
qed


section \<open>The matching predicate\<close>

lemma nullable_lang: "nullable r \<longleftrightarrow> [] \<in> lang r"
  by (induction r) (auto intro: star.intros)

lemma star_Cons_elim:
  assumes "x \<in> star A" and "x = c # w"
  shows "\<exists>u v. c # u \<in> A \<and> v \<in> star A \<and> w = u @ v"
  using assms
proof (induction arbitrary: w rule: star.induct)
  case star_nil
  then show ?case by simp
next
  case (star_app u v)
  show ?case
  proof (cases u)
    case Nil
    with star_app show ?thesis by simp
  next
    case (Cons a u')
    with star_app.prems have "a = c" "w = u' @ v" by simp_all
    with Cons star_app.hyps show ?thesis by blast
  qed
qed

lemma star_Cons_iff:
  "c # w \<in> star A \<longleftrightarrow> (\<exists>u v. c # u \<in> A \<and> v \<in> star A \<and> w = u @ v)"
proof
  assume "c # w \<in> star A"
  then show "\<exists>u v. c # u \<in> A \<and> v \<in> star A \<and> w = u @ v" by (rule star_Cons_elim) simp
next
  assume "\<exists>u v. c # u \<in> A \<and> v \<in> star A \<and> w = u @ v"
  then obtain u v where "c # u \<in> A" "v \<in> star A" "w = u @ v" by blast
  then have "(c # u) @ v \<in> star A" by (intro star_app)
  with \<open>w = u @ v\<close> show "c # w \<in> star A" by simp
qed

lemma deriv_lang: "w \<in> lang_opt (deriv c r) \<longleftrightarrow> c # w \<in> lang r"
proof (induction r arbitrary: w)
  case (Seq r s)
  have "c # w \<in> lang (Seq r s) \<longleftrightarrow>
        (nullable r \<and> c # w \<in> lang s) \<or> (\<exists>u v. c # u \<in> lang r \<and> v \<in> lang s \<and> w = u @ v)"
    by (auto simp: nullable_lang Cons_eq_append_conv)
  also have "\<dots> \<longleftrightarrow> (nullable r \<and> w \<in> lang_opt (deriv c s)) \<or>
        (\<exists>u v. u \<in> lang_opt (deriv c r) \<and> v \<in> lang s \<and> w = u @ v)"
    using Seq by simp
  also have "\<dots> \<longleftrightarrow> w \<in> lang_opt (deriv c (Seq r s))"
    by (auto split: option.splits)
  finally show ?case by simp
next
  case (Alt r s)
  then show ?case by (auto split: option.splits)
next
  case (Star r)
  have "c # w \<in> lang (Star r) \<longleftrightarrow> (\<exists>u v. c # u \<in> lang r \<and> v \<in> star (lang r) \<and> w = u @ v)"
    by (simp add: star_Cons_iff)
  also have "\<dots> \<longleftrightarrow> (\<exists>u v. u \<in> lang_opt (deriv c r) \<and> v \<in> star (lang r) \<and> w = u @ v)"
    using Star by simp
  also have "\<dots> \<longleftrightarrow> w \<in> lang_opt (deriv c (Star r))"
    by (auto split: option.splits)
  finally show ?case by simp
qed auto

lemma re_match_iff: "re_match r s \<longleftrightarrow> (\<exists>p. prefix p s \<and> p \<in> lang r)"
proof (induction s arbitrary: r)
  case Nil
  show ?case by (simp add: nullable_lang)
next
  case (Cons c cs)
  have "(\<exists>p. prefix p (c # cs) \<and> p \<in> lang r) \<longleftrightarrow>
        [] \<in> lang r \<or> (\<exists>p. prefix p cs \<and> c # p \<in> lang r)"
    by (auto simp: prefix_Cons)
  also have "\<dots> \<longleftrightarrow> nullable r \<or> (\<exists>p. prefix p cs \<and> p \<in> lang_opt (deriv c r))"
    by (simp add: nullable_lang deriv_lang)
  also have "\<dots> \<longleftrightarrow> re_match r (c # cs)"
    using Cons by (auto split: option.splits)
  finally show ?case by simp
qed


lemma lang_literal: "lang (literal s) = {s}"
  by (induction s) auto


section \<open>Constructing a configuration\<close>

lemma has_duplicates_iff: "has_duplicates xs \<longleftrightarrow> \<not> distinct xs"
  by (simp add: has_duplicates_def length_remdups_eq remdups_id_iff_distinct)

text \<open>
  Claim C7, amended. Constructing a configuration fails when two categories share a name,
  else when two rules of one category share a name, else when a category has no rule, and
  otherwise yields the configuration of exactly these categories. The error is one of three
  constant messages: it tells which of the three conditions failed, and names no category
  and no rule.
\<close>

theorem new_ScoringConfig_cases:
  "new_ScoringConfig cats =
     (if \<not> distinct (map name cats)
      then Inl (ValueError ''Group category names must be unique'')
      else if \<exists>cat \<in> set cats. \<not> distinct (map group_name (groups cat))
      then Inl (ValueError ''Check group names within categories must be unique'')
      else if \<exists>cat \<in> set cats. groups cat = []
      then Inl (ValueError ''Each category must contain at least one check group'')
      else Inr \<lparr>categories = cats\<rparr>)"
  by (simp add: new_ScoringConfig_def has_duplicates_iff list_ex_iff)

text \<open>
  Claim C7 as written fails: for two categories both named \<open>net\<close> the message does not
  contain the duplicated name.
\<close>

theorem new_ScoringConfig_counterexample:
  "new_ScoringConfig
     [\<lparr>name = ''net'', points_multiplier = PyInt 1, groups = [ping_rule]\<rparr>,
      \<lparr>name = ''net'', points_multiplier = PyInt 2, groups = [dns_rule]\<rparr>]
     = Inl (ValueError ''Group category names must be unique'') \<and>
   \<not> sublist ''net'' ''Group category names must be unique''"
proof -
  have "\<not> sublist ''net'' ''Group category names must be unique''" by code_simp
  then show ?thesis by (simp add: new_ScoringConfig_def has_duplicates_def)
qed

section \<open>The entry point\<close>

subsection \<open>The dictionaries\<close>

lemma map_of_dict_store: "map_of (dict_store d k v) = (map_of d)(k \<mapsto> v)"
  by (induction d) (auto simp: fun_eq_iff)

lemma keys_dict_store:
  "map fst (dict_store d k v) = (if k \<in> fst ` set d then map fst d else map fst d @ [k])"
  by (induction d) force+

lemma keys_set_dict_store: "fst ` set (dict_store d k v) = insert k (fst ` set d)"
  by (induction d) force+

lemma keys_dict_store_present: "map_of d k = Some x \<Longrightarrow> map fst (dict_store d k v) = map fst d"
  by (simp add: keys_dict_store map_of_eq_None_iff [symmetric])

lemma empty_lists_lookup:
  "map_of (empty_lists ks d) k = (if k \<in> set ks then Some [] else map_of d k)"
  by (induction ks arbitrary: d) (auto simp: map_of_dict_store)

lemma empty_lists_keys_set: "fst ` set (empty_lists ks d) = fst ` set d \<union> set ks"
  by (induction ks arbitrary: d) (simp_all add: keys_set_dict_store)

lemma empty_lists_distinct: "distinct (map fst d) \<Longrightarrow> distinct (map fst (empty_lists ks d))"
  by (induction ks arbitrary: d) (auto simp: keys_dict_store)

lemma dict_append_present:
  "map_of d k = Some xs \<Longrightarrow> dict_append d k x = Inr (dict_store d k (xs @ [x]))"
  by (simp add: dict_append_def dict_get_def)

subsection \<open>The loops of \<open>create\<close>\<close>

lemma create_inner_result:
  assumes "\<forall>r \<in> set records. map_of (record_to_groups m) r \<noteq> None"
      and "map_of (group_to_records m) g \<noteq> None"
  shows "\<exists>m'. create_inner g records m = Inr m' \<and>
           map fst (record_to_groups m') = map fst (record_to_groups m) \<and>
           map fst (group_to_records m') = map fst (group_to_records m) \<and>
           (\<forall>r. map_of (record_to_groups m') r =
                  map_option (\<lambda>old. old @ added_groups g records r) (map_of (record_to_groups m) r)) \<and>
           (\<forall>g'. map_of (group_to_records m') g' =
                  (if g' = g
                   then map_option (\<lambda>old. old @ filter (matches g) records) (map_of (group_to_records m) g')
                   else map_of (group_to_records m) g'))"
  using assms
proof (induction records arbitrary: m)
  case Nil
  show ?case by (simp add: added_groups_def option.map_ident map_option.identity)
next
  case (Cons r records)
  show ?case
  proof (cases "matches g r")
    case False
    from Cons.prems have "\<forall>r \<in> set records. map_of (record_to_groups m) r \<noteq> None" by simp
    moreover have "added_groups g (r # records) r' = added_groups g records r'" for r'
      using False by (simp add: added_groups_def)
    moreover have "filter (matches g) (r # records) = filter (matches g) records"
      using False by simp
    moreover have "create_inner g (r # records) m = create_inner g records m"
      using False by simp
    ultimately show ?thesis using Cons.IH [of m] Cons.prems(2) by presburger
  next
    case True
    from Cons.prems obtain gs rs where
      gs: "map_of (record_to_groups m) r = Some gs" and rs: "map_of (group_to_records m) g = Some rs"
      by auto
    let ?m = "\<lparr>record_to_groups = dict_store (record_to_groups m) r (gs @ [g]),
               group_to_records = dict_store (group_to_records m) g (rs @ [r])\<rparr>"
    have step: "create_inner g (r # records) m = create_inner g records ?m"
      using True gs rs by (simp add: dict_append_present)
    have p1: "\<forall>r \<in> set records. map_of (record_to_groups ?m) r \<noteq> None"
      using Cons.prems(1) by (simp add: map_of_dict_store)
    have p2: "map_of (group_to_records ?m) g \<noteq> None" by (simp add: map_of_dict_store)
    from Cons.IH [OF p1 p2] obtain m' where m':
      "create_inner g records ?m = Inr m'"
      "map fst (record_to_groups m') = map fst (record_to_groups ?m)"
      "map fst (group_to_records m') = map fst (group_to_records ?m)"
      "\<forall>r'. map_of (record_to_groups m') r' =
          map_option (\<lambda>old. old @ added_groups g records r') (map_of (record_to_groups ?m) r')"
      "\<forall>g'. map_of (group_to_records m') g' =
          (if g' = g
           then map_option (\<lambda>old. old @ filter (matches g) records) (map_of (group_to_records ?m) g')
           else map_of (group_to_records ?m) g')"
      by blast
    have k1: "map fst (record_to_groups m') = map fst (record_to_groups m)"
      using m'(2) gs by (simp add: keys_dict_store_present)
    have k2: "map fst (group_to_records m') = map fst (group_to_records m)"
      using m'(3) rs by (simp add: keys_dict_store_present)
    have l1: "map_of (record_to_groups m') r' =
          map_option (\<lambda>old. old @ added_groups g (r # records) r') (map_of (record_to_groups m) r')" for r'
      using m'(4) True gs by (cases "map_of (record_to_groups m) r'")
        (auto simp: map_of_dict_store added_groups_def)
    have l2: "map_of (group_to_records m') g' =
          (if g' = g
           then map_option (\<lambda>old. old @ filter (matches g) (r # records)) (map_of (group_to_records m) g')
           else map_of (group_to_records m) g')" for g'
      using m'(5) True rs by (auto simp: map_of_dict_store)
    from step m'(1) k1 k2 l1 l2 show ?thesis by simp
  qed
qed


lemma create_outer_result:
  assumes "\<forall>r \<in> set records. map_of (record_to_groups m) r \<noteq> None"
      and "\<forall>g \<in> set gs. map_of (group_to_records m) g \<noteq> None"
  shows "\<exists>m'. create_outer gs records m = Inr m' \<and>
           map fst (record_to_groups m') = map fst (record_to_groups m) \<and>
           map fst (group_to_records m') = map fst (group_to_records m) \<and>
           (\<forall>r. map_of (record_to_groups m') r =
                  map_option (\<lambda>old. old @ groups_of gs records r) (map_of (record_to_groups m) r)) \<and>
           (\<forall>g'. map_of (group_to_records m') g' =
                  map_option (\<lambda>old. old @ records_of gs records g') (map_of (group_to_records m) g'))"
  using assms
proof (induction gs arbitrary: m)
  case Nil
  show ?case by (simp add: groups_of_def records_of_def option.map_ident)
next
  case (Cons g gs)
  from Cons.prems have g: "map_of (group_to_records m) g \<noteq> None" by simp
  from create_inner_result [OF Cons.prems(1) g] obtain m1 where m1:
    "create_inner g records m = Inr m1"
    "map fst (record_to_groups m1) = map fst (record_to_groups m)"
    "map fst (group_to_records m1) = map fst (group_to_records m)"
    "\<And>r. map_of (record_to_groups m1) r =
        map_option (\<lambda>old. old @ added_groups g records r) (map_of (record_to_groups m) r)"
    "\<And>g'. map_of (group_to_records m1) g' =
        (if g' = g
         then map_option (\<lambda>old. old @ filter (matches g) records) (map_of (group_to_records m) g')
         else map_of (group_to_records m) g')"
    by blast
  have p1: "\<forall>r \<in> set records. map_of (record_to_groups m1) r \<noteq> None"
    using Cons.prems(1) by (simp add: m1(4))
  have p2: "\<forall>g' \<in> set gs. map_of (group_to_records m1) g' \<noteq> None"
    using Cons.prems(2) by (simp add: m1(5))
  from Cons.IH [OF p1 p2] obtain m' where m':
    "create_outer gs records m1 = Inr m'"
    "map fst (record_to_groups m') = map fst (record_to_groups m1)"
    "map fst (group_to_records m') = map fst (group_to_records m1)"
    "\<And>r. map_of (record_to_groups m') r =
        map_option (\<lambda>old. old @ groups_of gs records r) (map_of (record_to_groups m1) r)"
    "\<And>g'. map_of (group_to_records m') g' =
        map_option (\<lambda>old. old @ records_of gs records g') (map_of (group_to_records m1) g')"
    by blast
  have l1: "map_of (record_to_groups m') r =
      map_option (\<lambda>old. old @ groups_of (g # gs) records r) (map_of (record_to_groups m) r)" for r
    by (cases "map_of (record_to_groups m) r") (simp_all add: m'(4) m1(4) groups_of_def)
  have l2: "map_of (group_to_records m') g' =
      map_option (\<lambda>old. old @ records_of (g # gs) records g') (map_of (group_to_records m) g')" for g'
    by (cases "map_of (group_to_records m) g'") (auto simp: m'(5) m1(5) records_of_def)
  from m1(1) m'(1) m'(2) m'(3) m1(2) m1(3) l1 l2 show ?case by simp
qed

lemma create_result:
  "\<exists>m. create config records = Inr m \<and>
       distinct (map fst (record_to_groups m)) \<and> fst ` set (record_to_groups m) = set records \<and>
       distinct (map fst (group_to_records m)) \<and>
       fst ` set (group_to_records m) = set (config_groups config) \<and>
       (\<forall>r \<in> set records.
          map_of (record_to_groups m) r = Some (groups_of (config_groups config) records r)) \<and>
       (\<forall>g \<in> set (config_groups config).
          map_of (group_to_records m) g = Some (records_of (config_groups config) records g))"
proof -
  let ?gs = "config_groups config"
  let ?m0 = "\<lparr>record_to_groups = empty_lists records [],
             group_to_records = empty_lists ?gs []\<rparr>"
  have p1: "\<forall>r \<in> set records. map_of (record_to_groups ?m0) r \<noteq> None"
    by (simp add: empty_lists_lookup)
  have p2: "\<forall>g \<in> set ?gs. map_of (group_to_records ?m0) g \<noteq> None"
    by (simp add: empty_lists_lookup)
  from create_outer_result [OF p1 p2] obtain m where m:
    "create_outer ?gs records ?m0 = Inr m"
    "map fst (record_to_groups m) = map fst (record_to_groups ?m0)"
    "map fst (group_to_records m) = map fst (group_to_records ?m0)"
    "\<And>r. map_of (record_to_groups m) r =
        map_option (\<lambda>old. old @ groups_of ?gs records r) (map_of (record_to_groups ?m0) r)"
    "\<And>g'. map_of (group_to_records m) g' =
        map_option (\<lambda>old. old @ records_of ?gs records g') (map_of (group_to_records ?m0) g')"
    by blast
  have d1: "distinct (map fst (record_to_groups m))"
    unfolding m(2) using empty_lists_distinct [of "[]" records] by simp
  have d2: "distinct (map fst (group_to_records m))"
    unfolding m(3) using empty_lists_distinct [of "[]" ?gs] by simp
  have k1: "fst ` set (record_to_groups m) = set records"
    using m(2) empty_lists_keys_set [of records "[]"] by (metis (no_types, lifting) RecordGroupMatching.select_convs(1) empty_set image_empty set_map sup_bot_left)
  have k2: "fst ` set (group_to_records m) = set ?gs"
    using m(3) empty_lists_keys_set [of ?gs "[]"] by (metis (no_types, lifting) RecordGroupMatching.select_convs(2) empty_set image_empty set_map sup_bot_left)
  have l1: "\<forall>r \<in> set records. map_of (record_to_groups m) r = Some (groups_of ?gs records r)"
    by (simp add: m(4) empty_lists_lookup)
  have l2: "\<forall>g \<in> set ?gs. map_of (group_to_records m) g = Some (records_of ?gs records g)"
    by (simp add: m(5) empty_lists_lookup)
  from m(1) d1 d2 k1 k2 l1 l2 show ?thesis unfolding create_def by blast
qed

lemma length_added_groups:
  "length (added_groups g records r) = (if matches g r then count_list records r else 0)"
  by (induction records) (auto simp: added_groups_def)

lemma length_groups_of:
  "length (groups_of gs records r) = count_list records r * length (filter (\<lambda>g. matches g r) gs)"
  by (induction gs) (simp_all add: groups_of_def length_added_groups)

lemma records_of_empty_iff:
  "g \<in> set gs \<Longrightarrow> records_of gs records g = [] \<longleftrightarrow> \<not> (\<exists>r \<in> set records. matches g r)"
  by (induction gs) (auto simp: records_of_def filter_empty_conv)


subsection \<open>What \<open>score\<close> returns\<close>

text \<open>
  \<open>create\<close> never raises. \<open>score\<close> returns an overall result exactly when every record's
  key holds one rule and every rule's key holds a record; under a record's key there is one
  entry per matching rule and per occurrence of the record in the input.
\<close>

lemma with_groups_total:
  "\<forall>r \<in> set rs. map_of d r \<noteq> None \<Longrightarrow> \<exists>ps. with_groups d rs = Inr ps"
  by (induction rs) (auto simp: dict_get_def)

lemma create_group_results_total:
  "\<forall>g \<in> set gs. map_of (group_to_records m) g = Some (f g) \<Longrightarrow>
   create_group_results m gs = Inr (map (\<lambda>g. \<lparr>gr_group = g, gr_records = f g\<rparr>) gs)"
  by (induction gs) (simp_all add: dict_get_def)

lemma create_category_results_total:
  "\<forall>cat \<in> set cats. \<forall>g \<in> set (groups cat). map_of (group_to_records m) g = Some (f g) \<Longrightarrow>
   create_category_results m cats =
     Inr (map (\<lambda>cat. \<lparr>cr_category = cat,
                       cr_groups = map (\<lambda>g. \<lparr>gr_group = g, gr_records = f g\<rparr>) (groups cat)\<rparr>) cats)"
proof (induction cats)
  case Nil
  show ?case by simp
next
  case (Cons cat cats)
  from Cons.prems have "\<forall>g \<in> set (groups cat). map_of (group_to_records m) g = Some (f g)"
    by simp
  from create_group_results_total [OF this] Cons show ?case by simp
qed

lemma filter_keys:
  assumes "distinct (map fst d)" and "\<forall>k \<in> fst ` set d. map_of d k = Some (f k)"
  shows "set (map fst (filter (\<lambda>(k, v). P v) d)) = {k \<in> fst ` set d. P (f k)}"
proof -
  have "(k, v) \<in> set d \<longleftrightarrow> k \<in> fst ` set d \<and> v = f k" for k v
    using assms by (metis Some_eq_map_of_iff fst_conv image_eqI option.inject)
  then show ?thesis by (auto simp: image_iff) 
qed

lemma score_outcome:
  "\<exists>mult without_g without_r.
     set mult = {r \<in> set records. 1 < length (groups_of (config_groups config) records r)} \<and>
     set without_g = {r \<in> set records. groups_of (config_groups config) records r = []} \<and>
     set without_r = {g \<in> set (config_groups config).
                        records_of (config_groups config) records g = []} \<and>
     fst (score config records logged) =
       (case mult of
          r # _ \<Rightarrow> Inl (ValueError_multiple_groups r (groups_of (config_groups config) records r))
        | [] \<Rightarrow>
            (case without_g of
               r # _ \<Rightarrow> Inl (ValueError_without_group r)
             | [] \<Rightarrow>
                 (case without_r of
                    g # _ \<Rightarrow> Inl (ValueError_without_records g)
                  | [] \<Rightarrow> Inr (expected_result config records))))"
proof -
  let ?gs = "config_groups config"
  from create_result [of config records] obtain m where m:
    "create config records = Inr m"
    "distinct (map fst (record_to_groups m))" "fst ` set (record_to_groups m) = set records"
    "distinct (map fst (group_to_records m))" "fst ` set (group_to_records m) = set ?gs"
    "\<forall>r \<in> set records. map_of (record_to_groups m) r = Some (groups_of ?gs records r)"
    "\<forall>g \<in> set ?gs. map_of (group_to_records m) g = Some (records_of ?gs records g)"
    by blast
  let ?mult = "records_matching_multiple_groups m"
  let ?wg = "records_without_group m"
  let ?wr = "groups_without_records m"
  have s1: "set ?mult = {r \<in> set records. 1 < length (groups_of ?gs records r)}"
    unfolding records_matching_multiple_groups_def
    using filter_keys [OF m(2), of "groups_of ?gs records" "\<lambda>v. 1 < length v"] m(3) m(6) by simp
  have s2: "set ?wg = {r \<in> set records. groups_of ?gs records r = []}"
    unfolding records_without_group_def
    using filter_keys [OF m(2), of "groups_of ?gs records" "\<lambda>v. length v = 0"] m(3) m(6) by simp
  have s3: "set ?wr = {g \<in> set ?gs. records_of ?gs records g = []}"
    unfolding groups_without_records_def
    using filter_keys [OF m(4), of "records_of ?gs records" "\<lambda>v. length v = 0"] m(5) m(7) by simp
  have cats: "create_category_results m (categories config) =
                Inr (sr_categories (expected_result config records))"
    unfolding expected_result_def
    using m(7) by (simp add: create_category_results_total config_groups_def)
  have f: "fst (score config records logged) =
       (case ?mult of
          r # _ \<Rightarrow> Inl (ValueError_multiple_groups r (groups_of ?gs records r))
        | [] \<Rightarrow>
            (case ?wg of
               r # _ \<Rightarrow> Inl (ValueError_without_group r)
             | [] \<Rightarrow>
                 (case ?wr of
                    g # _ \<Rightarrow> Inl (ValueError_without_records g)
                  | [] \<Rightarrow> Inr (expected_result config records))))"
  proof (cases ?mult)
    case (Cons r others)
    with s1 have sub: "set (r # others) \<subseteq> set records" by auto
    then have "\<forall>x \<in> set (r # others). map_of (record_to_groups m) x \<noteq> None"
      using m(6) by auto
    from with_groups_total [OF this] obtain ps where
      "with_groups (record_to_groups m) (r # others) = Inr ps" by blast
    moreover from sub m(6) have "dict_get (record_to_groups m) r = Inr (groups_of ?gs records r)"
      by (simp add: dict_get_def)
    ultimately show ?thesis using Cons m(1) by (simp add: score_def Let_def)
  next
    case Nil
    then show ?thesis using m(1) cats
      by (auto simp: score_def expected_result_def split: list.splits)
  qed
  from s1 s2 s3 f show ?thesis by blast
qed


lemma count_list_pos: "r \<in> set records \<Longrightarrow> 0 < count_list records r"
  by (induction records) auto

lemma score_returns_iff:
  "(\<exists>result. fst (score config records logged) = Inr result) \<longleftrightarrow>
     (\<forall>r \<in> set records.
        count_list records r * length (filter (\<lambda>g. matches g r) (config_groups config)) = 1) \<and>
     (\<forall>g \<in> set (config_groups config). \<exists>r \<in> set records. matches g r)"
proof -
  let ?gs = "config_groups config"
  from score_outcome [of records config logged] obtain mult without_g without_r where o:
    "set mult = {r \<in> set records. 1 < length (groups_of ?gs records r)}"
    "set without_g = {r \<in> set records. groups_of ?gs records r = []}"
    "set without_r = {g \<in> set ?gs. records_of ?gs records g = []}"
    "fst (score config records logged) =
       (case mult of
          r # _ \<Rightarrow> Inl (ValueError_multiple_groups r (groups_of ?gs records r))
        | [] \<Rightarrow>
            (case without_g of
               r # _ \<Rightarrow> Inl (ValueError_without_group r)
             | [] \<Rightarrow>
                 (case without_r of
                    g # _ \<Rightarrow> Inl (ValueError_without_records g)
                  | [] \<Rightarrow> Inr (expected_result config records))))"
    by blast
  have "(\<exists>result. fst (score config records logged) = Inr result) \<longleftrightarrow>
        set mult = {} \<and> set without_g = {} \<and> set without_r = {}"
    unfolding o(4) by (auto split: list.splits)
  also have "\<dots> \<longleftrightarrow> (\<forall>r \<in> set records. length (groups_of ?gs records r) = 1) \<and>
        (\<forall>g \<in> set ?gs. records_of ?gs records g \<noteq> [])"
  proof -
    have a: "length xs = 1 \<longleftrightarrow> \<not> 1 < length xs \<and> xs \<noteq> []" for xs :: "CheckGroup list"
      by (cases xs) auto
    show ?thesis unfolding o(1,2,3) a by blast
  qed
  also have "\<dots> \<longleftrightarrow> (\<forall>r \<in> set records.
        count_list records r * length (filter (\<lambda>g. matches g r) ?gs) = 1) \<and>
     (\<forall>g \<in> set ?gs. \<exists>r \<in> set records. matches g r)"
    by (simp add: length_groups_of records_of_empty_iff)
  finally show ?thesis .
qed

lemma score_returns_iff_distinct:
  assumes "distinct records"
  shows "(\<exists>result. fst (score config records logged) = Inr result) \<longleftrightarrow>
     (\<forall>r \<in> set records. length (filter (\<lambda>g. matches g r) (config_groups config)) = 1) \<and>
     (\<forall>g \<in> set (config_groups config). \<exists>r \<in> set records. matches g r)"
proof -
  have "count_list records r = 1" if "r \<in> set records" for r
    using assms that by (induction records) auto
  then show ?thesis unfolding score_returns_iff by simp
qed

lemma score_result:
  assumes "fst (score config records logged) = Inr result"
  shows "result = expected_result config records"
proof -
  from score_outcome [of records config logged] obtain mult without_g without_r where
    "fst (score config records logged) =
       (case mult of
          r # _ \<Rightarrow> Inl (ValueError_multiple_groups r (groups_of (config_groups config) records r))
        | [] \<Rightarrow>
            (case without_g of
               r # _ \<Rightarrow> Inl (ValueError_without_group r)
             | [] \<Rightarrow>
                 (case without_r of
                    g # _ \<Rightarrow> Inl (ValueError_without_records g)
                  | [] \<Rightarrow> Inr (expected_result config records))))"
    by blast
  with assms show ?thesis by (auto split: list.splits)
qed

lemma score_error:
  assumes "fst (score config records logged) = Inl e"
  shows "(\<exists>r \<in> set records.
            e = ValueError_multiple_groups r (groups_of (config_groups config) records r) \<and>
            1 < count_list records r * length (filter (\<lambda>g. matches g r) (config_groups config))) \<or>
         (\<exists>r \<in> set records. e = ValueError_without_group r \<and>
            \<not> (\<exists>g \<in> set (config_groups config). matches g r)) \<or>
         (\<exists>g \<in> set (config_groups config). e = ValueError_without_records g \<and>
            \<not> (\<exists>r \<in> set records. matches g r))"
proof -
  let ?gs = "config_groups config"
  from score_outcome [of records config logged] obtain mult without_g without_r where o:
    "set mult = {r \<in> set records. 1 < length (groups_of ?gs records r)}"
    "set without_g = {r \<in> set records. groups_of ?gs records r = []}"
    "set without_r = {g \<in> set ?gs. records_of ?gs records g = []}"
    "fst (score config records logged) =
       (case mult of
          r # _ \<Rightarrow> Inl (ValueError_multiple_groups r (groups_of ?gs records r))
        | [] \<Rightarrow>
            (case without_g of
               r # _ \<Rightarrow> Inl (ValueError_without_group r)
             | [] \<Rightarrow>
                 (case without_r of
                    g # _ \<Rightarrow> Inl (ValueError_without_records g)
                  | [] \<Rightarrow> Inr (expected_result config records))))"
    by blast
  show ?thesis
  proof (cases mult)
    case (Cons r others)
    with o(1) have "r \<in> set records" "1 < length (groups_of ?gs records r)" by auto
    moreover from Cons o(4) assms have "e = ValueError_multiple_groups r (groups_of ?gs records r)"
      by simp
    ultimately show ?thesis by (auto simp: length_groups_of)
  next
    case Nil
    note mult = Nil
    show ?thesis
    proof (cases without_g)
      case (Cons r others)
      with o(2) have r: "r \<in> set records" "length (groups_of ?gs records r) = 0" by auto
      then have "filter (\<lambda>g. matches g r) ?gs = []"
        using count_list_pos [OF r(1)] by (simp add: length_groups_of)
      then have "\<not> (\<exists>g \<in> set ?gs. matches g r)" by (simp add: filter_empty_conv)
      moreover from Cons mult o(4) assms have "e = ValueError_without_group r" by simp
      ultimately show ?thesis using r(1) by blast
    next
      case Nil
      note wg = Nil
      show ?thesis
      proof (cases without_r)
        case (Cons g others)
        with o(3) have g: "g \<in> set ?gs" "records_of ?gs records g = []" by auto
        then have "\<not> (\<exists>r \<in> set records. matches g r)" by (simp add: records_of_empty_iff)
        moreover from Cons mult wg o(4) assms have "e = ValueError_without_records g" by simp
        ultimately show ?thesis using g(1) by blast
      next
        case Nil
        with mult wg o(4) assms show ?thesis by simp
      qed
    qed
  qed
qed

lemma score_rejects_repeated_record:
  assumes "r \<in> set records" and "1 < count_list records r"
      and "g \<in> set (config_groups config)" and "matches g r"
  shows "\<exists>r' gs. fst (score config records logged) = Inl (ValueError_multiple_groups r' gs)"
proof -
  let ?gs = "config_groups config"
  from assms(3,4) have "filter (\<lambda>g. matches g r) ?gs \<noteq> []" by (auto simp: filter_empty_conv)
  then obtain k where "length (filter (\<lambda>g. matches g r) ?gs) = Suc k"
    by (cases "filter (\<lambda>g. matches g r) ?gs") auto
  with assms(2) have big: "1 < length (groups_of ?gs records r)"
    unfolding length_groups_of by simp
  from score_outcome [of records config logged] obtain mult without_g without_r where o:
    "set mult = {r \<in> set records. 1 < length (groups_of ?gs records r)}"
    "fst (score config records logged) =
       (case mult of
          r # _ \<Rightarrow> Inl (ValueError_multiple_groups r (groups_of ?gs records r))
        | [] \<Rightarrow>
            (case without_g of
               r # _ \<Rightarrow> Inl (ValueError_without_group r)
             | [] \<Rightarrow>
                 (case without_r of
                    g # _ \<Rightarrow> Inl (ValueError_without_records g)
                  | [] \<Rightarrow> Inr (expected_result config records))))"
    by blast
  from o(1) assms(1) big have "mult \<noteq> []" by auto
  then obtain r' others where "mult = r' # others" by (cases mult) auto
  with o(2) show ?thesis by simp
qed


subsection \<open>The claims about \<open>score\<close>\<close>

text \<open>
  Claim C10. For the input \<open>[ping_ok, ping_ok, dns_ok]\<close>, in which one record occurs twice, the
  matcher holds one key for the two equal records and the rule \<open>ping\<close> twice under it, and
  \<open>score\<close> raises the records-match-multiple-groups error, although \<open>ping\<close> is the only rule
  that matches the record and no description is matched by both rules of the configuration.
\<close>

theorem duplicate_records_rejected:
  "create net_config [ping_ok, ping_ok, dns_ok] =
     Inr \<lparr>record_to_groups = [(ping_ok, [ping_rule, ping_rule]), (dns_ok, [dns_rule])],
          group_to_records = [(ping_rule, [ping_ok, ping_ok]), (dns_rule, [dns_ok])]\<rparr> \<and>
   fst (score net_config [ping_ok, ping_ok, dns_ok] []) =
     Inl (ValueError_multiple_groups ping_ok [ping_rule, ping_rule]) \<and>
   filter (\<lambda>g. matches g ping_ok) (config_groups net_config) = [ping_rule] \<and>
   config_groups net_config = [ping_rule, dns_rule] \<and>
   \<not> (\<exists>d. re_match (description_regex ping_rule) d \<and> re_match (description_regex dns_rule) d)"
proof -
  have "create net_config [ping_ok, ping_ok, dns_ok] =
     Inr \<lparr>record_to_groups = [(ping_ok, [ping_rule, ping_rule]), (dns_ok, [dns_rule])],
          group_to_records = [(ping_rule, [ping_ok, ping_ok]), (dns_rule, [dns_ok])]\<rparr>"
    by code_simp
  moreover have "fst (score net_config [ping_ok, ping_ok, dns_ok] []) =
     Inl (ValueError_multiple_groups ping_ok [ping_rule, ping_rule])"
    by code_simp
  moreover have "filter (\<lambda>g. matches g ping_ok) (config_groups net_config) = [ping_rule]"
    by code_simp
  moreover have "config_groups net_config = [ping_rule, dns_rule]"
    by (simp add: config_groups_def net_config_def)
  moreover have "\<not> (\<exists>d. re_match (description_regex ping_rule) d \<and>
                        re_match (description_regex dns_rule) d)"
    by (auto simp: ping_rule_def dns_rule_def re_match_iff lang_literal prefix_def)
  ultimately show ?thesis by blast
qed

text \<open>
  Claim C2 at the input \<open>[ping_ok, dns_failed, ping_ok]\<close>: every record is matched by exactly
  one rule and every rule matches a record, and \<open>score\<close> raises the
  records-match-multiple-groups error, naming the rule \<open>ping\<close> twice.
\<close>

theorem score_duplicate_record:
  "fst (score net_config [ping_ok, dns_failed, ping_ok] []) =
     Inl (ValueError_multiple_groups ping_ok [ping_rule, ping_rule]) \<and>
   filter (\<lambda>g. matches g ping_ok) (config_groups net_config) = [ping_rule] \<and>
   filter (\<lambda>g. matches g dns_failed) (config_groups net_config) = [dns_rule] \<and>
   filter (matches ping_rule) [ping_ok, dns_failed, ping_ok] = [ping_ok, ping_ok] \<and>
   filter (matches dns_rule) [ping_ok, dns_failed, ping_ok] = [dns_failed]"
  by code_simp



section \<open>The report\<close>








section \<open>The statements on concrete inputs\<close>





text \<open>
  The category of an \<open>EACH\<close> and a \<open>LINEAR\<close> rule result, and the overall result that holds it.
\<close>

theorem aggregation_sums_witness:
  "map gr_earned_points (cr_groups (hd (sr_categories net_result))) = map Inr [PyInt 5, PyFloat 5] \<and>
   map cr_earned_points (sr_categories net_result) = map Inr [PyFloat 10] \<and>
   cr_total_checks_count (hd (sr_categories net_result)) = 4 \<and>
   cr_passed_checks_count (hd (sr_categories net_result)) = 2 \<and>
   cr_failed_check_count (hd (sr_categories net_result)) = 2 \<and>
   (\<exists>v. cr_earned_points (hd (sr_categories net_result)) = Inr v \<and> val v = 10) \<and>
   (\<exists>m. cr_max_points (hd (sr_categories net_result)) = Inr m \<and> val m = 20) \<and>
   (\<exists>v. sr_earned_points net_result = Inr v \<and> val v = 10) \<and>
   sr_total_checks_count net_result = 4"
proof -
  let ?c = "hd (sr_categories net_result)"
  have a: "map gr_earned_points (cr_groups ?c) = map Inr [PyInt 5, PyFloat 5]" by code_simp
  have b: "map cr_earned_points (sr_categories net_result) = map Inr [PyFloat 10]" by code_simp
  have n: "map gr_total_checks_count (cr_groups ?c) = [2, 2]"
    "map gr_passed_checks_count (cr_groups ?c) = [1, 1]"
    "map gr_failed_check_count (cr_groups ?c) = [1, 1]"
    "map (\<lambda>g. val (gr_max_points g)) (cr_groups ?c) = [10, 10]"
    "map cr_total_checks_count (sr_categories net_result) = [4]"
    by code_simp+
  from aggregation_sums [OF a b] a b show ?thesis unfolding n by simp
qed

text \<open>
  A valid configuration, one with a repeated rule name and one with an empty category.
\<close>

theorem new_ScoringConfig_cases_witness:
  "new_ScoringConfig [\<lparr>name = ''net'', points_multiplier = PyInt 1, groups = [ping_rule, dns_rule]\<rparr>]
     = Inr net_config \<and>
   new_ScoringConfig [\<lparr>name = ''net'', points_multiplier = PyInt 1, groups = [ping_rule, ping_rule]\<rparr>]
     = Inl (ValueError ''Check group names within categories must be unique'') \<and>
   new_ScoringConfig [\<lparr>name = ''net'', points_multiplier = PyInt 1, groups = [ping_rule]\<rparr>,
                      \<lparr>name = ''notes'', points_multiplier = PyInt 0, groups = []\<rparr>]
     = Inl (ValueError ''Each category must contain at least one check group'')"
proof -
  have d: "group_name ping_rule \<noteq> group_name dns_rule" by (simp add: ping_rule_def dns_rule_def)
  show ?thesis
    unfolding new_ScoringConfig_cases using d by (simp add: net_config_def)
qed


end
